theory Spec2Isabelle
  imports Complex_Main
begin

section \<open>Values, time and errors\<close>

text \<open>
  Times (\<open>Date.now()\<close>), time-to-live values, window lengths and counters are JavaScript
  numbers holding integers; they are modelled as unbounded \<open>int\<close> (milliseconds).
  A payload of type \<open>T | null\<close> is a \<open>'v jsval\<close>: \<open>Null\<close> is JavaScript's \<open>null\<close>, and
  \<open>Val x\<close> is any other value (\<open>undefined\<close> included, which \<open>!== null\<close> lets through).
\<close>

datatype 'v jsval = Null | Val 'v

datatype error = RateLimitError string

text \<open>Decimal rendering of a number inside a template string.\<close>

fun string_of_nat :: "nat \<Rightarrow> string" where
  "string_of_nat n =
     (if n < 10 then [''0123456789'' ! n]
      else string_of_nat (n div 10) @ [''0123456789'' ! (n mod 10)])"

definition string_of_int :: "int \<Rightarrow> string" where
  "string_of_int i =
     (if i < 0 then CHR ''-'' # string_of_nat (nat (- i)) else string_of_nat (nat i))"

section \<open>The rate limiter\<close>

record RateLimitEntry =
  count :: int
  resetTime :: int

text \<open>The module-level \<open>rateLimitStore\<close>: one table, keyed by the identity string alone.\<close>

type_synonym rateLimitStore = "string \<rightharpoonup> RateLimitEntry"

text \<open>
  The part of a request the limiters read: four headers. \<open>headers.get\<close> yields \<open>null\<close>
  (here \<open>None\<close>) for a header that is not present; header values are byte strings.
\<close>

record NextRequest =
  x_forwarded_for :: "string option"
  x_real_ip :: "string option"
  cf_connecting_ip :: "string option"
  user_agent :: "string option"

record RateLimitConfig =
  maxRequests :: int
  windowMs :: int
  keyGenerator :: "(NextRequest \<Rightarrow> string) option"

text \<open>Truthiness of a \<open>string | null\<close>: \<open>null\<close> and the empty string are falsy.\<close>

fun truthy :: "string option \<Rightarrow> bool" where
  "truthy None = False"
| "truthy (Some s) = (s \<noteq> [])"

text \<open>
  \<open>String.prototype.trim\<close> on a string of code units below 256: the white space and line
  terminators there are TAB, LF, VT, FF, CR, SPACE and NBSP.
\<close>

definition isWhiteSpace :: "char \<Rightarrow> bool" where
  "isWhiteSpace c =
     (c = CHR 0x09 \<or> c = CHR 0x0A \<or> c = CHR 0x0B \<or> c = CHR 0x0C \<or> c = CHR 0x0D
      \<or> c = CHR 0x20 \<or> c = CHR 0xA0)"

definition trim :: "string \<Rightarrow> string" where
  "trim s = rev (dropWhile isWhiteSpace (rev (dropWhile isWhiteSpace s)))"

text \<open>\<open>s.split(",")[0]\<close>: the part of \<open>s\<close> before its first comma.\<close>

definition split_comma_first :: "string \<Rightarrow> string" where
  "split_comma_first s = takeWhile (\<lambda>c. c \<noteq> CHR '','') s"

fun getClientIP :: "NextRequest \<Rightarrow> string" where
  "getClientIP request =
     (let forwarded = x_forwarded_for request;
          realIP = x_real_ip request;
          cfConnectingIP = cf_connecting_ip request
      in if truthy forwarded then trim (split_comma_first (case forwarded of Some s \<Rightarrow> s | None \<Rightarrow> []))
         else if truthy realIP then (case realIP of Some s \<Rightarrow> s | None \<Rightarrow> [])
         else if truthy cfConnectingIP then (case cfConnectingIP of Some s \<Rightarrow> s | None \<Rightarrow> [])
         else ''unknown'')"

text \<open>\<open>Math.ceil((entry.resetTime - now) / 1000)\<close>.\<close>

definition resetTimeSeconds :: "RateLimitEntry \<Rightarrow> int \<Rightarrow> int" where
  "resetTimeSeconds entry now = \<lceil>real_of_int (resetTime entry - now) / 1000\<rceil>"

definition rateLimitMessage :: "int \<Rightarrow> string" where
  "rateLimitMessage secs =
     ''Rate limit exceeded. Try again in '' @ string_of_int secs @ '' seconds.''"

text \<open>
  The closure \<open>rateLimit\<close> returned by \<open>createRateLimit\<close>, with the captured \<open>maxRequests\<close>,
  \<open>windowMs\<close> and \<open>keyGenerator\<close> as its first arguments, the clock reading \<open>now\<close> and the
  store passed explicitly. The result is the outcome (\<open>Inl\<close> for the thrown error, \<open>Inr ()\<close>
  for a normal return) and the store afterwards. \<open>entry.count++\<close> mutates the object held
  by the table, so the incremented count is in the store on the throwing path too.
\<close>

definition rateLimit ::
  "int \<Rightarrow> int \<Rightarrow> (NextRequest \<Rightarrow> string) \<Rightarrow> NextRequest \<Rightarrow> int \<Rightarrow> rateLimitStore
     \<Rightarrow> (error + unit) \<times> rateLimitStore" where
  "rateLimit maxReq window keyGen request now store =
     (let key = keyGen request in
      case store key of
        None \<Rightarrow> (Inr (), store(key \<mapsto> \<lparr>count = 1, resetTime = now + window\<rparr>))
      | Some entry \<Rightarrow>
          if now > resetTime entry
          then (Inr (), store(key \<mapsto> \<lparr>count = 1, resetTime = now + window\<rparr>))
          else
            (let entry' = entry\<lparr>count := count entry + 1\<rparr>;
                 store' = store(key \<mapsto> entry')
             in if count entry' > maxReq
                then (Inl (RateLimitError (rateLimitMessage (resetTimeSeconds entry' now))), store')
                else (Inr (), store')))"

text \<open>
  \<open>createRateLimit\<close>: the configuration's \<open>maxRequests\<close> and \<open>windowMs\<close> are required
  fields; only \<open>keyGenerator\<close> may be left out, and then it is \<open>getClientIP\<close>.
\<close>

definition keyOf :: "RateLimitConfig \<Rightarrow> NextRequest \<Rightarrow> string" where
  "keyOf config = (case keyGenerator config of None \<Rightarrow> getClientIP | Some g \<Rightarrow> g)"

definition createRateLimit ::
  "RateLimitConfig \<Rightarrow> NextRequest \<Rightarrow> int \<Rightarrow> rateLimitStore \<Rightarrow> (error + unit) \<times> rateLimitStore" where
  "createRateLimit config = rateLimit (maxRequests config) (windowMs config) (keyOf config)"

definition botKey :: "NextRequest \<Rightarrow> string" where
  "botKey request =
     (let userAgent = (if truthy (user_agent request)
                       then (case user_agent request of Some s \<Rightarrow> s | None \<Rightarrow> [])
                       else ''unknown'');
          ip = getClientIP request
      in ip @ '':'' @ userAgent)"

definition apiRateLimit_config :: RateLimitConfig where
  "apiRateLimit_config =
     \<lparr>maxRequests = 100, windowMs = 15 * 60 * 1000, keyGenerator = None\<rparr>"

definition strictApiRateLimit_config :: RateLimitConfig where
  "strictApiRateLimit_config = \<lparr>maxRequests = 10, windowMs = 60 * 1000, keyGenerator = None\<rparr>"

definition botProtectionRateLimit_config :: RateLimitConfig where
  "botProtectionRateLimit_config =
     \<lparr>maxRequests = 50, windowMs = 60 * 1000, keyGenerator = Some botKey\<rparr>"

definition apiRateLimit ::
  "NextRequest \<Rightarrow> int \<Rightarrow> rateLimitStore \<Rightarrow> (error + unit) \<times> rateLimitStore" where
  "apiRateLimit = createRateLimit apiRateLimit_config"

definition strictApiRateLimit ::
  "NextRequest \<Rightarrow> int \<Rightarrow> rateLimitStore \<Rightarrow> (error + unit) \<times> rateLimitStore" where
  "strictApiRateLimit = createRateLimit strictApiRateLimit_config"

definition botProtectionRateLimit ::
  "NextRequest \<Rightarrow> int \<Rightarrow> rateLimitStore \<Rightarrow> (error + unit) \<times> rateLimitStore" where
  "botProtectionRateLimit = createRateLimit botProtectionRateLimit_config"

text \<open>
  A caller making one call after the other, each at its own clock reading, and catching
  what each throws: the outcomes in order, and the store at the end.
\<close>

fun admits ::
  "(NextRequest \<Rightarrow> int \<Rightarrow> rateLimitStore \<Rightarrow> (error + unit) \<times> rateLimitStore)
     \<Rightarrow> (NextRequest \<times> int) list \<Rightarrow> rateLimitStore \<Rightarrow> (error + unit) list \<times> rateLimitStore" where
  "admits limiter [] store = ([], store)"
| "admits limiter ((request, now) # calls) store =
     (let (outcome, store') = limiter request now store;
          (outcomes, store'') = admits limiter calls store'
      in (outcome # outcomes, store''))"

text \<open>
  The condition \<open>!entry || now > entry.resetTime\<close> under which a call starts a new window.
\<close>

definition noLiveEntry :: "rateLimitStore \<Rightarrow> string \<Rightarrow> int \<Rightarrow> bool" where
  "noLiveEntry store key now =
     (case store key of None \<Rightarrow> True | Some entry \<Rightarrow> now > resetTime entry)"

text \<open>
  The periodic sweep of the store (\<open>setInterval\<close>, every minute), run at clock reading
  \<open>now\<close>: it deletes the entries whose reset timestamp has passed.
\<close>

definition sweep :: "rateLimitStore \<Rightarrow> int \<Rightarrow> rateLimitStore" where
  "sweep store now =
     (\<lambda>key. case store key of
              None \<Rightarrow> None
            | Some entry \<Rightarrow> if now > resetTime entry then None else Some entry)"

section \<open>The response cache\<close>

record 'v CacheEntry =
  data :: "'v jsval"
  timestamp :: int
  ttl :: int

record 'v MemoryCache =
  cache :: "string \<rightharpoonup> 'v CacheEntry"
  defaultTTL :: int

definition new_MemoryCache :: "int \<Rightarrow> 'v MemoryCache" where
  "new_MemoryCache dflt = \<lparr>cache = Map.empty, defaultTTL = dflt\<rparr>"

text \<open>
  \<open>ttl || this.defaultTTL\<close> for an optional number: an argument left out (\<open>None\<close>) and the
  number 0 are falsy.
\<close>

definition orDefault :: "int option \<Rightarrow> int \<Rightarrow> int" where
  "orDefault ttl_arg dflt = (case ttl_arg of None \<Rightarrow> dflt | Some t \<Rightarrow> if t = 0 then dflt else t)"

definition MemoryCache_set ::
  "'v MemoryCache \<Rightarrow> string \<Rightarrow> 'v jsval \<Rightarrow> int option \<Rightarrow> int \<Rightarrow> 'v MemoryCache" where
  "MemoryCache_set c key d ttl_arg now =
     (let entry = \<lparr>data = d, timestamp = now, ttl = orDefault ttl_arg (defaultTTL c)\<rparr>
      in c\<lparr>cache := (cache c)(key \<mapsto> entry)\<rparr>)"

definition MemoryCache_get :: "'v MemoryCache \<Rightarrow> string \<Rightarrow> int \<Rightarrow> 'v jsval \<times> 'v MemoryCache" where
  "MemoryCache_get c key now =
     (case cache c key of
        None \<Rightarrow> (Null, c)
      | Some entry \<Rightarrow>
          if now - timestamp entry > ttl entry
          then (Null, c\<lparr>cache := (cache c)(key := None)\<rparr>)
          else (data entry, c))"

definition MemoryCache_has :: "'v MemoryCache \<Rightarrow> string \<Rightarrow> int \<Rightarrow> bool \<times> 'v MemoryCache" where
  "MemoryCache_has c key now =
     (case cache c key of
        None \<Rightarrow> (False, c)
      | Some entry \<Rightarrow>
          if now - timestamp entry > ttl entry
          then (False, c\<lparr>cache := (cache c)(key := None)\<rparr>)
          else (True, c))"

definition MemoryCache_delete :: "'v MemoryCache \<Rightarrow> string \<Rightarrow> bool \<times> 'v MemoryCache" where
  "MemoryCache_delete c key = (cache c key \<noteq> None, c\<lparr>cache := (cache c)(key := None)\<rparr>)"

definition MemoryCache_clear :: "'v MemoryCache \<Rightarrow> 'v MemoryCache" where
  "MemoryCache_clear c = c\<lparr>cache := Map.empty\<rparr>"

text \<open>The private \<open>cleanup\<close>, which the constructor's timer runs every minute.\<close>

definition MemoryCache_cleanup :: "'v MemoryCache \<Rightarrow> int \<Rightarrow> 'v MemoryCache" where
  "MemoryCache_cleanup c now =
     c\<lparr>cache := (\<lambda>key. case cache c key of
                          None \<Rightarrow> None
                        | Some entry \<Rightarrow>
                            if now - timestamp entry > ttl entry then None else Some entry)\<rparr>"

text \<open>The two module-level instances.\<close>

record 'v caches =
  productCache :: "'v MemoryCache"
  apiCache :: "'v MemoryCache"

definition initial_caches :: "'v caches" where
  "initial_caches = \<lparr>productCache = new_MemoryCache 300000, apiCache = new_MemoryCache 60000\<rparr>"

text \<open>\<open>cacheKeys\<close>.\<close>

definition allProducts :: string where
  "allProducts = ''products:all''"

definition productById :: "string \<Rightarrow> string" where
  "productById ident = ''product:'' @ ident"

definition productsByCategory :: "string \<Rightarrow> string" where
  "productsByCategory category = ''products:category:'' @ category"

definition productsBySearch :: "string \<Rightarrow> string" where
  "productsBySearch query = ''products:search:'' @ query"

definition featuredProducts :: string where
  "featuredProducts = ''products:featured''"

text \<open>
  \<open>invalidateProductCaches(productId?)\<close>: the argument is \<open>None\<close> when left out, and
  \<open>if (productId)\<close> is the truthiness of a string.
\<close>

definition keysToDelete :: "string option \<Rightarrow> string list" where
  "keysToDelete productId =
     [allProducts, featuredProducts] @
     (if truthy productId then [productById (case productId of Some i \<Rightarrow> i | None \<Rightarrow> [])]
      else [])"

definition invalidateProductCaches :: "string option \<Rightarrow> 'v caches \<Rightarrow> 'v caches" where
  "invalidateProductCaches productId s =
     s\<lparr>productCache := MemoryCache_clear (productCache s),
       apiCache := fold (\<lambda>key c. snd (MemoryCache_delete c key)) (keysToDelete productId)
                     (apiCache s)\<rparr>"

text \<open>
  \<open>withCache(fn, keyGenerator, cache, ttl)\<close>. The wrapped function \<open>fn\<close> reads and may
  change a world \<open>'w\<close> outside the cache, and either rejects (\<open>Inl\<close>) or resolves
  (\<open>Inr\<close>). A run carries the state of the cache the wrapper was given, the world, and
  \<open>invocations\<close>, the number of times \<open>fn\<close> has been called so far, which the model keeps
  to state how often the underlying function runs. A call of the wrapper reads the
  clock twice: \<open>tget\<close> inside \<open>cache.get\<close>, and \<open>tset\<close> inside \<open>cache.set\<close> once \<open>fn\<close> has
  resolved. Calls are taken one after the other, none starting while another awaits.
\<close>

record ('v, 'w) run =
  the_cache :: "'v MemoryCache"
  world :: 'w
  invocations :: nat

definition withCache ::
  "('a \<Rightarrow> 'w \<Rightarrow> ('e + 'v jsval) \<times> 'w) \<Rightarrow> ('a \<Rightarrow> string) \<Rightarrow> int option
     \<Rightarrow> 'a \<Rightarrow> int \<Rightarrow> int \<Rightarrow> ('v, 'w) run \<Rightarrow> ('e + 'v jsval) \<times> ('v, 'w) run" where
  "withCache fn keyGen ttl_arg args tget tset s =
     (let key = keyGen args;
          (cached, c) = MemoryCache_get (the_cache s) key tget
      in if cached \<noteq> Null then (Inr cached, s\<lparr>the_cache := c\<rparr>)
         else
           (case fn args (world s) of
              (Inl e, w) \<Rightarrow>
                (Inl e, s\<lparr>the_cache := c, world := w, invocations := invocations s + 1\<rparr>)
            | (Inr result, w) \<Rightarrow>
                (Inr result,
                 s\<lparr>the_cache := MemoryCache_set c key result ttl_arg tset, world := w,
                   invocations := invocations s + 1\<rparr>)))"

text \<open>Whether the entry of \<open>key\<close> is present and not yet expired at \<open>now\<close>.\<close>

definition live :: "'v MemoryCache \<Rightarrow> string \<Rightarrow> int \<Rightarrow> bool" where
  "live c key now =
     (case cache c key of None \<Rightarrow> False | Some entry \<Rightarrow> \<not> now - timestamp entry > ttl entry)"

section \<open>Example inputs\<close>

definition ip1_request :: NextRequest where
  "ip1_request = \<lparr>x_forwarded_for = None, x_real_ip = Some ''ip1'', cf_connecting_ip = None,
                  user_agent = None\<rparr>"

definition scenario_config :: RateLimitConfig where
  "scenario_config = \<lparr>maxRequests = 2, windowMs = 1000, keyGenerator = None\<rparr>"

definition curl_request :: NextRequest where
  "curl_request = \<lparr>x_forwarded_for = None, x_real_ip = Some ''ip1'', cf_connecting_ip = None,
                   user_agent = Some ''curl''\<rparr>"

definition colon_request :: NextRequest where
  "colon_request = \<lparr>x_forwarded_for = None, x_real_ip = Some ''ip1:curl'',
                    cf_connecting_ip = None, user_agent = None\<rparr>"

definition quota1_config :: RateLimitConfig where
  "quota1_config = \<lparr>maxRequests = 1, windowMs = 900000, keyGenerator = None\<rparr>"

definition one_entry_cache :: "nat MemoryCache" where
  "one_entry_cache = MemoryCache_set (new_MemoryCache 60000) ''k'' (Val 1) (Some 10) 0"

definition populated_api :: "nat MemoryCache" where
  "populated_api =
     MemoryCache_set
       (MemoryCache_set
         (MemoryCache_set
           (MemoryCache_set
             (MemoryCache_set (new_MemoryCache 60000) ''products:all'' (Val 1) None 0)
             ''products:featured'' (Val 2) None 0)
           ''product:42'' (Val 3) (Some 5000) 0)
         ''products:category:shoes'' (Val 4) None 0)
       ''products:search:red'' (Val 5) None 0"

definition populated_caches :: "nat caches" where
  "populated_caches = \<lparr>productCache = new_MemoryCache 300000, apiCache = populated_api\<rparr>"

text \<open>
  Three functions to wrap, over a world that is one number: one resolves to the number,
  one resolves to \<open>null\<close>, one rejects.
\<close>

definition read_world :: "string \<Rightarrow> nat \<Rightarrow> (string + nat jsval) \<times> nat" where
  "read_world args w = (Inr (Val w), w)"

definition null_result :: "string \<Rightarrow> nat \<Rightarrow> (string + nat jsval) \<times> nat" where
  "null_result args w = (Inr Null, w)"

definition failing :: "string \<Rightarrow> nat \<Rightarrow> (string + nat jsval) \<times> nat" where
  "failing args w = (Inl ''boom'', w)"

definition empty_run :: "(nat, nat) run" where
  "empty_run = \<lparr>the_cache = new_MemoryCache 60000, world = 7, invocations = 0\<rparr>"

definition stale_run :: "(nat, nat) run" where
  "stale_run = \<lparr>the_cache = one_entry_cache, world = 7, invocations = 0\<rparr>"

section \<open>Theorems about the rate limiter\<close>

lemma rateLimit_other_key:
  "keyGen request \<noteq> b \<Longrightarrow> snd (rateLimit maxReq window keyGen request now store) b = store b"
  by (simp add: rateLimit_def Let_def split: option.split)

text \<open>
  C8. An admit call of any limiter whose key resolves to \<open>A\<close> leaves the stored entry of
  every other key \<open>B\<close> as it was: its count and reset timestamp, or its absence.
\<close>

theorem rateLimit_frame:
  assumes "keyOf config request = A"
      and "A \<noteq> B"
  shows "snd (createRateLimit config request now store) B = store B"
  using assms by (simp add: createRateLimit_def rateLimit_other_key)

theorem rateLimit_frame_witness:
  "snd (createRateLimit scenario_config ip1_request 5
          [''ip2'' \<mapsto> \<lparr>count = 2, resetTime = 7\<rparr>]) ''ip2'' =
     Some \<lparr>count = 2, resetTime = 7\<rparr>
   \<and> snd (createRateLimit scenario_config ip1_request 5
          [''ip2'' \<mapsto> \<lparr>count = 2, resetTime = 7\<rparr>]) ''ip3'' = None"
  using rateLimit_frame [of scenario_config ip1_request "''ip1''" "''ip2''" 5
          "[''ip2'' \<mapsto> \<lparr>count = 2, resetTime = 7\<rparr>]"]
        rateLimit_frame [of scenario_config ip1_request "''ip1''" "''ip3''" 5
          "[''ip2'' \<mapsto> \<lparr>count = 2, resetTime = 7\<rparr>]"]
  by (simp add: scenario_config_def ip1_request_def keyOf_def)

text \<open>
  The sweep cannot disturb a window: it leaves an entry whose reset timestamp has not
  passed, and what it deletes would start a new window at any later call anyway.
\<close>

lemma sweep_keeps_window:
  "store key = Some entry \<Longrightarrow> t \<le> resetTime entry \<Longrightarrow> sweep store t key = Some entry"
  by (simp add: sweep_def)

lemma sweep_noLiveEntry:
  "t \<le> now \<Longrightarrow> noLiveEntry (sweep store t) key now = noLiveEntry store key now"
  by (auto simp: sweep_def noLiveEntry_def split: option.splits)

lemma rateLimitMessage_900:
  "rateLimitMessage 900 = ''Rate limit exceeded. Try again in 900 seconds.''"
  by code_simp

lemma rateLimit_opens:
  "keyGen request = key \<Longrightarrow> noLiveEntry store key now \<Longrightarrow>
   rateLimit maxReq window keyGen request now store =
     (Inr (), store(key \<mapsto> \<lparr>count = 1, resetTime = now + window\<rparr>))"
  by (auto simp: rateLimit_def noLiveEntry_def Let_def split: option.splits)

lemma rateLimit_in_window:
  "keyGen request = key \<Longrightarrow> store key = Some \<lparr>count = c, resetTime = R\<rparr> \<Longrightarrow> now \<le> R \<Longrightarrow>
   rateLimit maxReq window keyGen request now store =
     (if c + 1 > maxReq
      then Inl (RateLimitError (rateLimitMessage \<lceil>real_of_int (R - now) / 1000\<rceil>))
      else Inr (),
      store(key \<mapsto> \<lparr>count = c + 1, resetTime = R\<rparr>))"
  by (simp add: rateLimit_def Let_def resetTimeSeconds_def)

lemma admits_Cons:
  "admits limiter ((request, now) # calls) store =
     (fst (limiter request now store) # fst (admits limiter calls (snd (limiter request now store))),
      snd (admits limiter calls (snd (limiter request now store))))"
  by (simp add: case_prod_beta)

lemma admits_length: "length (fst (admits limiter calls store)) = length calls"
proof (induction calls arbitrary: store)
  case Nil
  then show ?case by simp
next
  case (Cons call calls)
  then show ?case by (cases call) (simp add: admits_Cons del: admits.simps)
qed

lemma admits_in_window:
  assumes "\<forall>(r, t) \<in> set calls. keyGen r = k \<and> t \<le> R"
      and "store k = Some \<lparr>count = c, resetTime = R\<rparr>"
      and "i < length calls"
  shows "fst (admits (rateLimit maxReq window keyGen) calls store) ! i =
           (if c + int i + 1 > maxReq
            then Inl (RateLimitError (rateLimitMessage \<lceil>real_of_int (R - snd (calls ! i)) / 1000\<rceil>))
            else Inr ())"
  using assms
proof (induction calls arbitrary: store c i)
  case Nil
  then show ?case by simp
next
  case (Cons call calls)
  obtain r t where call: "call = (r, t)" by (cases call)
  from Cons.prems(1) call have k: "keyGen r = k" and t: "t \<le> R" by auto
  note e = Cons.prems(2)
  have step: "rateLimit maxReq window keyGen r t store =
     (if c + 1 > maxReq
      then Inl (RateLimitError (rateLimitMessage \<lceil>real_of_int (R - t) / 1000\<rceil>))
      else Inr (),
      store(k \<mapsto> \<lparr>count = c + 1, resetTime = R\<rparr>))"
    using k e t by (rule rateLimit_in_window)
  show ?case
  proof (cases i)
    case 0
    then show ?thesis using step call by (simp add: admits_Cons del: admits.simps)
  next
    case (Suc j)
    let ?store' = "store(k \<mapsto> \<lparr>count = c + 1, resetTime = R\<rparr>)"
    have rest: "\<forall>(r, t) \<in> set calls. keyGen r = k \<and> t \<le> R" using Cons.prems(1) by simp
    have e': "?store' k = Some \<lparr>count = c + 1, resetTime = R\<rparr>" by simp
    have j: "j < length calls" using Cons.prems(3) Suc by simp
    have ih: "fst (admits (rateLimit maxReq window keyGen) calls ?store') ! j =
           (if c + 1 + int j + 1 > maxReq
            then Inl (RateLimitError (rateLimitMessage \<lceil>real_of_int (R - snd (calls ! j)) / 1000\<rceil>))
            else Inr ())"
      by (rule Cons.IH [of ?store' "c + 1" j, OF rest e' j])
    have "fst (admits (rateLimit maxReq window keyGen) (call # calls) store) ! i =
          fst (admits (rateLimit maxReq window keyGen) calls ?store') ! j"
      using step call Suc by (simp add: admits_Cons del: admits.simps)
    also note ih
    finally show ?thesis using Suc by (simp add: add.commute add.left_commute)
  qed
qed

lemma admits_in_window_store:
  assumes "\<forall>(r, t) \<in> set calls. keyGen r = k \<and> t \<le> R"
      and "store k = Some \<lparr>count = c, resetTime = R\<rparr>"
  shows "snd (admits (rateLimit maxReq window keyGen) calls store) k =
           Some \<lparr>count = c + int (length calls), resetTime = R\<rparr>"
  using assms
proof (induction calls arbitrary: store c)
  case Nil
  then show ?case by simp
next
  case (Cons call calls)
  obtain r t where call: "call = (r, t)" by (cases call)
  from Cons.prems(1) call have k: "keyGen r = k" and t: "t \<le> R" by auto
  note e = Cons.prems(2)
  have step: "snd (rateLimit maxReq window keyGen r t store) =
      store(k \<mapsto> \<lparr>count = c + 1, resetTime = R\<rparr>)"
    using k e t by (simp add: rateLimit_in_window [where key = k and R = R])
  let ?store' = "store(k \<mapsto> \<lparr>count = c + 1, resetTime = R\<rparr>)"
  have rest: "\<forall>(r, t) \<in> set calls. keyGen r = k \<and> t \<le> R" using Cons.prems(1) by simp
  have e': "?store' k = Some \<lparr>count = c + 1, resetTime = R\<rparr>" by simp
  have ih: "snd (admits (rateLimit maxReq window keyGen) calls ?store') k =
           Some \<lparr>count = c + 1 + int (length calls), resetTime = R\<rparr>"
    by (rule Cons.IH [of ?store' "c + 1", OF rest e'])
  have "snd (admits (rateLimit maxReq window keyGen) (call # calls) store) =
        snd (admits (rateLimit maxReq window keyGen) calls ?store')"
    using step call by (simp add: admits_Cons del: admits.simps)
  then show ?case using ih by (simp add: add.commute add.left_commute del: fun_upd_apply)
qed

lemma createRateLimit_opens:
  "keyOf config request = key \<Longrightarrow> noLiveEntry store key now \<Longrightarrow>
   createRateLimit config request now store =
     (Inr (), store(key \<mapsto> \<lparr>count = 1, resetTime = now + windowMs config\<rparr>))"
  unfolding createRateLimit_def by (rule rateLimit_opens)

lemma admits_quota:
  assumes pos: "1 \<le> maxRequests config"
      and key0: "keyOf config r0 = k"
      and opens: "noLiveEntry store k t0"
      and rest: "\<forall>(r, t) \<in> set rest. keyOf config r = k \<and> t \<le> t0 + windowMs config"
      and N: "1 \<le> N" "N \<le> length ((r0, t0) # rest)"
  shows "fst (admits (createRateLimit config) ((r0, t0) # rest) store) ! (N - 1) =
           (if int N \<le> maxRequests config then Inr ()
            else Inl (RateLimitError (rateLimitMessage
                   \<lceil>real_of_int (t0 + windowMs config - snd (((r0, t0) # rest) ! (N - 1))) / 1000\<rceil>)))"
proof -
  let ?R = "t0 + windowMs config"
  let ?store' = "store(k \<mapsto> \<lparr>count = 1, resetTime = ?R\<rparr>)"
  have first: "createRateLimit config r0 t0 store = (Inr (), ?store')"
    using key0 opens by (rule createRateLimit_opens)
  show ?thesis
  proof (cases "N = 1")
    case True
    then show ?thesis using first pos by (simp add: admits_Cons del: admits.simps)
  next
    case False
    with N obtain j where j: "N = Suc (Suc j)" "j < length rest"
      by (cases N; cases "N - 1") auto
    have e: "?store' k = Some \<lparr>count = 1, resetTime = ?R\<rparr>" by simp
    have "fst (admits (rateLimit (maxRequests config) (windowMs config) (keyOf config)) rest ?store') ! j =
           (if 1 + int j + 1 > maxRequests config
            then Inl (RateLimitError (rateLimitMessage \<lceil>real_of_int (?R - snd (rest ! j)) / 1000\<rceil>))
            else Inr ())"
      using rest e j(2) by (rule admits_in_window)
    then have "fst (admits (createRateLimit config) rest ?store') ! j =
           (if 1 + int j + 1 > maxRequests config
            then Inl (RateLimitError (rateLimitMessage \<lceil>real_of_int (?R - snd (rest ! j)) / 1000\<rceil>))
            else Inr ())"
      by (simp add: createRateLimit_def [abs_def])
    then show ?thesis using first j by (auto simp: admits_Cons simp del: admits.simps)
  qed
qed

text \<open>
  C1. A limiter with quota \<open>maxRequests\<close> of at least 1, a key \<open>k\<close>, and calls for \<open>k\<close> within
  one window: the first call at \<open>t0\<close> finds no live entry and opens the window, which is
  reset at \<open>t0 + windowMs\<close>, and every later call comes no later than that. Then call
  number \<open>N\<close> returns normally when \<open>N \<le> maxRequests\<close>, and otherwise throws the
  RateLimitError with the message \<open>Rate limit exceeded. Try again in S seconds.\<close>, where
  \<open>S\<close> is the decimal numeral of the ceiling of \<open>(resetTime - now) / 1000\<close>.
\<close>

theorem rateLimit_quota:
  assumes pos: "1 \<le> maxRequests config"
      and key0: "keyOf config r0 = k"
      and opens: "noLiveEntry store k t0"
      and rest: "\<forall>(r, t) \<in> set rest. keyOf config r = k \<and> t \<le> t0 + windowMs config"
      and N: "1 \<le> N" "N \<le> length ((r0, t0) # rest)"
  shows "fst (admits (createRateLimit config) ((r0, t0) # rest) store) ! (N - 1) =
           (if int N \<le> maxRequests config then Inr ()
            else Inl (RateLimitError
                   (''Rate limit exceeded. Try again in '' @
                    string_of_int
                      \<lceil>real_of_int (t0 + windowMs config - snd (((r0, t0) # rest) ! (N - 1))) / 1000\<rceil>
                    @ '' seconds.'')))"
  using admits_quota [OF pos key0 opens rest N] by (simp add: rateLimitMessage_def)

theorem rateLimit_quota_witness:
  "fst (admits (createRateLimit scenario_config)
          [(ip1_request, 0), (ip1_request, 10), (ip1_request, 20)] Map.empty) ! 1 = Inr ()
   \<and> fst (admits (createRateLimit scenario_config)
          [(ip1_request, 0), (ip1_request, 10), (ip1_request, 20)] Map.empty) ! 2 =
       Inl (RateLimitError ''Rate limit exceeded. Try again in 1 seconds.'')
   \<and> fst (admits (createRateLimit quota1_config)
          [(ip1_request, 0), (ip1_request, 45001)] Map.empty) ! 1 =
       Inl (RateLimitError ''Rate limit exceeded. Try again in 855 seconds.'')"
proof -
  have digits: "string_of_int 1 = ''1''" "string_of_int 855 = ''855''"
    by code_simp+
  show ?thesis
    using rateLimit_quota [of scenario_config ip1_request "''ip1''" Map.empty 0
        "[(ip1_request, 10), (ip1_request, 20)]" 2]
      rateLimit_quota [of scenario_config ip1_request "''ip1''" Map.empty 0
        "[(ip1_request, 10), (ip1_request, 20)]" 3]
      rateLimit_quota [of quota1_config ip1_request "''ip1''" Map.empty 0
        "[(ip1_request, 45001)]" 2]
    by (simp add: scenario_config_def quota1_config_def ip1_request_def keyOf_def
        noLiveEntry_def digits del: string_of_nat.simps)
qed

text \<open>
  C2, amended. A call that finds no entry for its key, or finds one whose reset timestamp
  the clock has strictly passed (\<open>now > resetTime\<close>), is admitted and leaves the fresh
  entry with count 1 and reset timestamp \<open>now + windowMs\<close>. In particular, after a window
  opened at \<open>t0\<close> and any number of further calls in it, a call later than
  \<open>t0 + windowMs\<close> is admitted and sets the count back to 1.
\<close>

theorem rateLimit_new_window:
  "(keyOf config request = k \<and> noLiveEntry store k now \<longrightarrow>
      createRateLimit config request now store =
        (Inr (), store(k \<mapsto> \<lparr>count = 1, resetTime = now + windowMs config\<rparr>)))
   \<and> (keyOf config r0 = k \<and> noLiveEntry store k t0
        \<and> (\<forall>(r, t) \<in> set rest. keyOf config r = k \<and> t \<le> t0 + windowMs config)
        \<and> keyOf config request = k \<and> t0 + windowMs config < now \<longrightarrow>
      createRateLimit config request now
          (snd (admits (createRateLimit config) ((r0, t0) # rest) store)) =
        (Inr (), (snd (admits (createRateLimit config) ((r0, t0) # rest) store))
                   (k \<mapsto> \<lparr>count = 1, resetTime = now + windowMs config\<rparr>)))"
proof (intro conjI impI)
  assume "keyOf config request = k \<and> noLiveEntry store k now"
  then show "createRateLimit config request now store =
        (Inr (), store(k \<mapsto> \<lparr>count = 1, resetTime = now + windowMs config\<rparr>))"
    by (simp add: createRateLimit_opens)
next
  let ?R = "t0 + windowMs config"
  let ?store' = "store(k \<mapsto> \<lparr>count = 1, resetTime = ?R\<rparr>)"
  let ?after = "snd (admits (createRateLimit config) ((r0, t0) # rest) store)"
  assume a: "keyOf config r0 = k \<and> noLiveEntry store k t0
        \<and> (\<forall>(r, t) \<in> set rest. keyOf config r = k \<and> t \<le> t0 + windowMs config)
        \<and> keyOf config request = k \<and> t0 + windowMs config < now"
  then have first: "createRateLimit config r0 t0 store = (Inr (), ?store')"
    by (simp add: createRateLimit_opens)
  have rest: "\<forall>(r, t) \<in> set rest. keyOf config r = k \<and> t \<le> ?R" using a by simp
  have e: "?store' k = Some \<lparr>count = 1, resetTime = ?R\<rparr>" by simp
  have "snd (admits (rateLimit (maxRequests config) (windowMs config) (keyOf config)) rest ?store') k =
          Some \<lparr>count = 1 + int (length rest), resetTime = ?R\<rparr>"
    using rest e by (rule admits_in_window_store)
  then have "?after k = Some \<lparr>count = 1 + int (length rest), resetTime = ?R\<rparr>"
    using first by (simp add: admits_Cons createRateLimit_def [abs_def] del: admits.simps)
  then have "noLiveEntry ?after k now" using a by (simp add: noLiveEntry_def)
  with a show "createRateLimit config request now ?after =
        (Inr (), ?after(k \<mapsto> \<lparr>count = 1, resetTime = now + windowMs config\<rparr>))"
    by (simp add: createRateLimit_opens)
qed

theorem rateLimit_new_window_witness:
  "createRateLimit scenario_config ip1_request 1001
       (snd (admits (createRateLimit scenario_config)
               [(ip1_request, 0), (ip1_request, 1), (ip1_request, 2)] Map.empty)) =
     (Inr (), (snd (admits (createRateLimit scenario_config)
               [(ip1_request, 0), (ip1_request, 1), (ip1_request, 2)] Map.empty))
                (''ip1'' \<mapsto> \<lparr>count = 1, resetTime = 2001\<rparr>))
   \<and> createRateLimit scenario_config ip1_request 7 Map.empty =
        (Inr (), [''ip1'' \<mapsto> \<lparr>count = 1, resetTime = 1007\<rparr>])"
  using rateLimit_new_window [of scenario_config ip1_request "''ip1''" Map.empty 7]
    rateLimit_new_window [of scenario_config ip1_request "''ip1''" Map.empty 1001 ip1_request 0
      "[(ip1_request, 1), (ip1_request, 2)]"]
  by (simp add: scenario_config_def ip1_request_def keyOf_def noLiveEntry_def)

text \<open>
  C2 as stated fails when the clock is exactly at the reset timestamp: with quota 2 and a
  window of 1000 ms opened at time 0, the call at time 1000 is counted in the old window
  and rejected.
\<close>

theorem rateLimit_at_reset_counterexample:
  "0 + windowMs scenario_config \<le> 1000 \<and>
   admits (createRateLimit scenario_config)
      [(ip1_request, 0), (ip1_request, 1), (ip1_request, 2), (ip1_request, 1000)] Map.empty =
     ([Inr (), Inr (), Inl (RateLimitError (rateLimitMessage 1)),
       Inl (RateLimitError (rateLimitMessage 0))],
      [''ip1'' \<mapsto> \<lparr>count = 4, resetTime = 1000\<rparr>])"
  by (simp add: createRateLimit_def rateLimit_def scenario_config_def ip1_request_def keyOf_def
      resetTimeSeconds_def)

text \<open>
  C9. All limiters work on the one table, keyed by the identity string alone. When a
  limiter \<open>c1\<close> opens a window for key \<open>k\<close> at \<open>t1\<close> and admits further calls in it, a call
  of any limiter \<open>c2\<close> whose key function yields the same \<open>k\<close>, no later than
  \<open>t1 + windowMs c1\<close>, increments that same count, is judged against \<open>c2\<close>'s quota, and
  keeps the reset timestamp fixed by \<open>c1\<close>. \<open>apiRateLimit\<close> and \<open>strictApiRateLimit\<close> yield the
  same key for every request, and the key of \<open>botProtectionRateLimit\<close> for one request can
  be the key of \<open>apiRateLimit\<close> for another.
\<close>

theorem shared_store:
  "(keyOf c1 r1 = k \<and> noLiveEntry store k t1
      \<and> (\<forall>(r, t) \<in> set rest. keyOf c1 r = k \<and> t \<le> t1 + windowMs c1)
      \<and> keyOf c2 r2 = k \<and> t2 \<le> t1 + windowMs c1 \<longrightarrow>
    createRateLimit c2 r2 t2 (snd (admits (createRateLimit c1) ((r1, t1) # rest) store)) =
      (if 2 + int (length rest) > maxRequests c2
       then Inl (RateLimitError (rateLimitMessage \<lceil>real_of_int (t1 + windowMs c1 - t2) / 1000\<rceil>))
       else Inr (),
       (snd (admits (createRateLimit c1) ((r1, t1) # rest) store))
         (k \<mapsto> \<lparr>count = 2 + int (length rest), resetTime = t1 + windowMs c1\<rparr>)))
   \<and> keyOf apiRateLimit_config r = keyOf strictApiRateLimit_config r
   \<and> keyOf botProtectionRateLimit_config curl_request = keyOf apiRateLimit_config colon_request"
proof (intro conjI impI)
  let ?R = "t1 + windowMs c1"
  let ?store' = "store(k \<mapsto> \<lparr>count = 1, resetTime = ?R\<rparr>)"
  let ?after = "snd (admits (createRateLimit c1) ((r1, t1) # rest) store)"
  assume a: "keyOf c1 r1 = k \<and> noLiveEntry store k t1
      \<and> (\<forall>(r, t) \<in> set rest. keyOf c1 r = k \<and> t \<le> t1 + windowMs c1)
      \<and> keyOf c2 r2 = k \<and> t2 \<le> t1 + windowMs c1"
  then have first: "createRateLimit c1 r1 t1 store = (Inr (), ?store')"
    by (simp add: createRateLimit_opens)
  have rest: "\<forall>(r, t) \<in> set rest. keyOf c1 r = k \<and> t \<le> ?R" using a by simp
  have e: "?store' k = Some \<lparr>count = 1, resetTime = ?R\<rparr>" by simp
  have "snd (admits (rateLimit (maxRequests c1) (windowMs c1) (keyOf c1)) rest ?store') k =
          Some \<lparr>count = 1 + int (length rest), resetTime = ?R\<rparr>"
    using rest e by (rule admits_in_window_store)
  then have after: "?after k = Some \<lparr>count = 1 + int (length rest), resetTime = ?R\<rparr>"
    using first by (simp add: admits_Cons createRateLimit_def [abs_def] del: admits.simps)
  have k2: "keyOf c2 r2 = k" and t2: "t2 \<le> ?R" using a by simp_all
  have "rateLimit (maxRequests c2) (windowMs c2) (keyOf c2) r2 t2 ?after =
     (if 1 + int (length rest) + 1 > maxRequests c2
      then Inl (RateLimitError (rateLimitMessage \<lceil>real_of_int (?R - t2) / 1000\<rceil>))
      else Inr (),
      ?after(k \<mapsto> \<lparr>count = 1 + int (length rest) + 1, resetTime = ?R\<rparr>))"
    using k2 after t2 by (rule rateLimit_in_window)
  then show "createRateLimit c2 r2 t2 ?after =
      (if 2 + int (length rest) > maxRequests c2
       then Inl (RateLimitError (rateLimitMessage \<lceil>real_of_int (?R - t2) / 1000\<rceil>))
       else Inr (),
       ?after(k \<mapsto> \<lparr>count = 2 + int (length rest), resetTime = ?R\<rparr>))"
    by (simp add: createRateLimit_def add.commute add.left_commute)
next
  show "keyOf apiRateLimit_config r = keyOf strictApiRateLimit_config r"
    by (simp add: keyOf_def apiRateLimit_config_def strictApiRateLimit_config_def)
next
  show "keyOf botProtectionRateLimit_config curl_request = keyOf apiRateLimit_config colon_request"
    by (simp add: keyOf_def apiRateLimit_config_def botProtectionRateLimit_config_def botKey_def
        curl_request_def colon_request_def)
qed

theorem shared_store_witness:
  "fst (strictApiRateLimit ip1_request 1
          (snd (admits apiRateLimit (replicate 10 (ip1_request, 0)) Map.empty))) =
     Inl (RateLimitError (rateLimitMessage 900))
   \<and> snd (strictApiRateLimit ip1_request 1
          (snd (admits apiRateLimit (replicate 10 (ip1_request, 0)) Map.empty))) ''ip1'' =
     Some \<lparr>count = 11, resetTime = 900000\<rparr>"
  using shared_store [of apiRateLimit_config ip1_request "''ip1''" Map.empty 0
      "replicate 9 (ip1_request, 0)" strictApiRateLimit_config ip1_request 1]
  by (simp add: apiRateLimit_def strictApiRateLimit_def apiRateLimit_config_def
      strictApiRateLimit_config_def ip1_request_def keyOf_def noLiveEntry_def numeral_eq_Suc
      del: admits.simps)

section \<open>Theorems about the response cache\<close>

lemma MemoryCache_get_absent: "cache c k = None \<Longrightarrow> MemoryCache_get c k now = (Null, c)"
  by (simp add: MemoryCache_get_def)

lemma MemoryCache_get_fresh:
  "cache c k = Some entry \<Longrightarrow> now - timestamp entry \<le> ttl entry \<Longrightarrow>
   MemoryCache_get c k now = (data entry, c)"
  by (simp add: MemoryCache_get_def)

lemma MemoryCache_get_stale:
  "cache c k = Some entry \<Longrightarrow> now - timestamp entry > ttl entry \<Longrightarrow>
   MemoryCache_get c k now = (Null, c\<lparr>cache := (cache c)(k := None)\<rparr>)"
  by (simp add: MemoryCache_get_def)

text \<open>A get after the timer's cleanup returns what it would have returned without it.\<close>

lemma MemoryCache_get_cleanup:
  "t \<le> now \<Longrightarrow>
   fst (MemoryCache_get (MemoryCache_cleanup c t) k now) = fst (MemoryCache_get c k now)"
  by (auto simp: MemoryCache_get_def MemoryCache_cleanup_def split: option.splits)

lemma cache_MemoryCache_set:
  "cache (MemoryCache_set c k v ttl_arg t0) =
     (cache c)(k \<mapsto> \<lparr>data = v, timestamp = t0, ttl = orDefault ttl_arg (defaultTTL c)\<rparr>)"
  by (simp add: MemoryCache_set_def)

text \<open>
  C3, amended. The entry written by \<open>set(k, v, ttl)\<close> carries the stored ttl
  \<open>orDefault ttl (defaultTTL c)\<close>: the given ttl when one is given and is not 0, the
  cache's default otherwise. A \<open>get(k)\<close> while \<open>now - storedAt\<close> is at most the stored ttl
  returns \<open>v\<close> and changes nothing (so does a get at the clock reading of the set, when
  the stored ttl is not negative); a \<open>get(k)\<close> when \<open>now - storedAt\<close> exceeds the stored ttl
  returns \<open>null\<close> and removes the entry; a get of a key with no entry returns \<open>null\<close> and
  changes nothing.
\<close>

theorem get_after_set:
  "(now - storedAt \<le> orDefault ttl_arg (defaultTTL c) \<longrightarrow>
      MemoryCache_get (MemoryCache_set c k v ttl_arg storedAt) k now =
        (v, MemoryCache_set c k v ttl_arg storedAt))
   \<and> (0 \<le> orDefault ttl_arg (defaultTTL c) \<longrightarrow>
      MemoryCache_get (MemoryCache_set c k v ttl_arg storedAt) k storedAt =
        (v, MemoryCache_set c k v ttl_arg storedAt))
   \<and> (now - storedAt > orDefault ttl_arg (defaultTTL c) \<longrightarrow>
      MemoryCache_get (MemoryCache_set c k v ttl_arg storedAt) k now =
        (Null, c\<lparr>cache := (cache c)(k := None)\<rparr>))
   \<and> (cache c k = None \<longrightarrow> MemoryCache_get c k now = (Null, c))"
  by (simp add: MemoryCache_get_def MemoryCache_set_def)

theorem get_after_set_witness:
  "MemoryCache_get one_entry_cache ''k'' 10 = (Val 1, one_entry_cache)
   \<and> MemoryCache_get one_entry_cache ''k'' 0 = (Val 1, one_entry_cache)
   \<and> MemoryCache_get one_entry_cache ''k'' 11 = (Null, new_MemoryCache 60000)
   \<and> MemoryCache_get one_entry_cache ''j'' 3 = (Null, one_entry_cache)"
  using get_after_set [of 10 0 "Some 10" "new_MemoryCache 60000" "''k''" "Val (1::nat)"]
    get_after_set [of 11 0 "Some 10" "new_MemoryCache 60000" "''k''" "Val (1::nat)"]
    get_after_set [of 3 0 None one_entry_cache "''j''" "Val (1::nat)"]
  by (simp add: one_entry_cache_def orDefault_def new_MemoryCache_def cache_MemoryCache_set)

text \<open>
  C3 as stated fails for the ttl argument 0: the entry is stored with the default TTL,
  so a get 5 ms after the set, when \<open>now - storedAt > ttl\<close> for the given ttl 0, still
  returns the value and removes nothing.
\<close>

theorem get_after_set_zero_ttl_counterexample:
  "(5::int) - 0 > 0 \<and>
   MemoryCache_get (MemoryCache_set (new_MemoryCache 60000) ''k'' (Val (1::nat)) (Some 0) 0) ''k'' 5 =
     (Val 1, MemoryCache_set (new_MemoryCache 60000) ''k'' (Val 1) (Some 0) 0)"
  by (simp add: MemoryCache_get_def MemoryCache_set_def new_MemoryCache_def orDefault_def)

text \<open>
  C7, amended. \<open>has(k)\<close> and \<open>get(k)\<close> leave the cache in the same state. \<open>has(k)\<close> is true
  exactly when the key has an entry that is not expired, and then \<open>get(k)\<close> returns the
  stored value, which is \<open>null\<close> when \<open>null\<close> was stored, and changes nothing; \<open>has(k)\<close> is
  false exactly otherwise, and then \<open>get(k)\<close> returns \<open>null\<close> and the key has no entry
  afterwards. When the value stored under the key is not \<open>null\<close>, \<open>has(k)\<close> is true
  exactly when \<open>get(k)\<close> returns something other than \<open>null\<close>.
\<close>

theorem has_like_get:
  "snd (MemoryCache_has c k now) = snd (MemoryCache_get c k now)
   \<and> fst (MemoryCache_has c k now) = live c k now
   \<and> (fst (MemoryCache_has c k now) \<longrightarrow>
        (\<exists>entry. cache c k = Some entry \<and> MemoryCache_get c k now = (data entry, c)))
   \<and> (\<not> fst (MemoryCache_has c k now) \<longrightarrow>
        fst (MemoryCache_get c k now) = Null \<and> cache (snd (MemoryCache_get c k now)) k = None)
   \<and> ((\<forall>entry. cache c k = Some entry \<longrightarrow> data entry \<noteq> Null) \<longrightarrow>
        fst (MemoryCache_has c k now) = (fst (MemoryCache_get c k now) \<noteq> Null))"
  by (simp add: MemoryCache_has_def MemoryCache_get_def live_def split: option.split)

theorem has_like_get_witness:
  "fst (MemoryCache_has one_entry_cache ''k'' 10)
   \<and> MemoryCache_get one_entry_cache ''k'' 10 = (Val 1, one_entry_cache)
   \<and> \<not> fst (MemoryCache_has one_entry_cache ''k'' 11)
   \<and> fst (MemoryCache_get one_entry_cache ''k'' 11) = Null
   \<and> cache (snd (MemoryCache_has one_entry_cache ''k'' 11)) ''k'' = None
   \<and> fst (MemoryCache_has one_entry_cache ''k'' 10) =
        (fst (MemoryCache_get one_entry_cache ''k'' 10) \<noteq> Null)"
  using has_like_get [of one_entry_cache "''k''" 10] has_like_get [of one_entry_cache "''k''" 11]
  by (simp add: one_entry_cache_def orDefault_def new_MemoryCache_def live_def
      cache_MemoryCache_set)

text \<open>
  C7 as stated fails for a stored \<open>null\<close>, which the wrapper itself stores when the wrapped
  function resolves to \<open>null\<close>: one millisecond later \<open>has\<close> of the key is true, while
  \<open>get\<close> of the key returns \<open>null\<close>, the value a caller reads as absent.
\<close>

theorem has_stored_null_counterexample:
  "cache (the_cache (snd (withCache null_result productById None ''42'' 0 0 empty_run)))
      ''product:42'' = Some \<lparr>data = Null, timestamp = 0, ttl = 60000\<rparr>
   \<and> fst (MemoryCache_has
            (the_cache (snd (withCache null_result productById None ''42'' 0 0 empty_run)))
            ''product:42'' 1)
   \<and> fst (MemoryCache_get
            (the_cache (snd (withCache null_result productById None ''42'' 0 0 empty_run)))
            ''product:42'' 1) = Null"
  by (simp add: withCache_def empty_run_def null_result_def productById_def MemoryCache_get_def
      MemoryCache_has_def MemoryCache_set_def new_MemoryCache_def orDefault_def Let_def)




lemma cache_fold_delete:
  "cache (fold (\<lambda>key c. snd (MemoryCache_delete c key)) ks c) key =
     (if key \<in> set ks then None else cache c key)"
  by (induction ks arbitrary: c) (simp_all add: MemoryCache_delete_def)

lemma defaultTTL_fold_delete:
  "defaultTTL (fold (\<lambda>key c. snd (MemoryCache_delete c key)) ks c) = defaultTTL c"
  by (induction ks arbitrary: c) (simp_all add: MemoryCache_delete_def)

lemma cache_api_invalidate:
  "cache (apiCache (invalidateProductCaches productId s)) key =
     (if key \<in> set (keysToDelete productId) then None else cache (apiCache s) key)"
  by (simp add: invalidateProductCaches_def cache_fold_delete)

lemma set_keysToDelete:
  "set (keysToDelete productId) =
     {allProducts, featuredProducts} \<union>
     (case productId of None \<Rightarrow> {} | Some i \<Rightarrow> if i = [] then {} else {productById i})"
  by (cases productId) (auto simp: keysToDelete_def)

lemma scoped_keys_kept:
  "productsByCategory category \<notin> set (keysToDelete productId)"
  "productsBySearch query \<notin> set (keysToDelete productId)"
  by (auto simp: set_keysToDelete productsByCategory_def productsBySearch_def allProducts_def
      featuredProducts_def productById_def split: option.splits)

lemma invalidate_clears_productCache:
  "cache (productCache (invalidateProductCaches productId s)) = Map.empty"
  by (simp add: invalidateProductCaches_def MemoryCache_clear_def)

text \<open>
  C4. After \<open>invalidateProductCaches(id)\<close>, a get of \<open>products:all\<close> and of
  \<open>products:featured\<close> on the API cache returns \<open>null\<close>, and so does a get of
  \<open>product:<id>\<close> when an id was supplied, which \<open>if (productId)\<close> takes to be a non-empty
  string; these are all the keys deleted. Every other entry of the API cache is left as
  it was, so a get of it returns what it returned before; the category-scoped keys
  \<open>products:category:<name>\<close> and the search-scoped keys \<open>products:search:<term>\<close> are
  always among those. The key strings are the ones \<open>cacheKeys\<close> generates.
\<close>

theorem invalidateProductCaches_api:
  "fst (MemoryCache_get (apiCache (invalidateProductCaches productId s)) ''products:all'' now) = Null
   \<and> fst (MemoryCache_get (apiCache (invalidateProductCaches productId s)) ''products:featured'' now)
        = Null
   \<and> (productId = Some ident \<and> ident \<noteq> [] \<longrightarrow>
        fst (MemoryCache_get (apiCache (invalidateProductCaches productId s)) (''product:'' @ ident)
               now) = Null)
   \<and> set (keysToDelete productId) =
        {''products:all'', ''products:featured''} \<union>
        (case productId of None \<Rightarrow> {} | Some i \<Rightarrow> if i = [] then {} else {''product:'' @ i})
   \<and> (key \<notin> set (keysToDelete productId) \<longrightarrow>
        cache (apiCache (invalidateProductCaches productId s)) key = cache (apiCache s) key
        \<and> fst (MemoryCache_get (apiCache (invalidateProductCaches productId s)) key now) =
            fst (MemoryCache_get (apiCache s) key now))
   \<and> cache (apiCache (invalidateProductCaches productId s)) (''products:category:'' @ category) =
        cache (apiCache s) (''products:category:'' @ category)
   \<and> cache (apiCache (invalidateProductCaches productId s)) (''products:search:'' @ query) =
        cache (apiCache s) (''products:search:'' @ query)
   \<and> allProducts = ''products:all'' \<and> featuredProducts = ''products:featured''
   \<and> productById ident = ''product:'' @ ident
   \<and> productsByCategory category = ''products:category:'' @ category
   \<and> productsBySearch query = ''products:search:'' @ query"
proof (intro conjI impI)
  let ?api = "apiCache (invalidateProductCaches productId s)"
  have keys: "set (keysToDelete productId) =
        {''products:all'', ''products:featured''} \<union>
        (case productId of None \<Rightarrow> {} | Some i \<Rightarrow> if i = [] then {} else {''product:'' @ i})"
    by (cases productId)
      (simp_all add: set_keysToDelete allProducts_def featuredProducts_def productById_def)
  have gone: "fst (MemoryCache_get ?api k now) = Null" if "k \<in> set (keysToDelete productId)" for k
    using that by (simp add: MemoryCache_get_def cache_api_invalidate)
  have kept: "cache ?api k = cache (apiCache s) k" if "k \<notin> set (keysToDelete productId)" for k
    using that by (simp add: cache_api_invalidate)
  show "fst (MemoryCache_get ?api ''products:all'' now) = Null"
    by (rule gone) (simp add: keys)
  show "fst (MemoryCache_get ?api ''products:featured'' now) = Null"
    by (rule gone) (simp add: keys)
  show "fst (MemoryCache_get ?api (''product:'' @ ident) now) = Null"
    if "productId = Some ident \<and> ident \<noteq> []"
    by (rule gone) (use that in \<open>auto simp: set_keysToDelete productById_def\<close>)
  show "set (keysToDelete productId) =
        {''products:all'', ''products:featured''} \<union>
        (case productId of None \<Rightarrow> {} | Some i \<Rightarrow> if i = [] then {} else {''product:'' @ i})"
    by (rule keys)
  show "cache ?api key = cache (apiCache s) key" if "key \<notin> set (keysToDelete productId)"
    using that by (rule kept)
  show "fst (MemoryCache_get ?api key now) = fst (MemoryCache_get (apiCache s) key now)"
    if "key \<notin> set (keysToDelete productId)"
    using that by (simp add: MemoryCache_get_def cache_api_invalidate split: option.split)
  show "cache ?api (''products:category:'' @ category) =
          cache (apiCache s) (''products:category:'' @ category)"
    by (rule kept) (auto simp: keys split: option.splits)
  show "cache ?api (''products:search:'' @ query) = cache (apiCache s) (''products:search:'' @ query)"
    by (rule kept) (auto simp: keys split: option.splits)
  show "allProducts = ''products:all''" by (simp add: allProducts_def)
  show "featuredProducts = ''products:featured''" by (simp add: featuredProducts_def)
  show "productById ident = ''product:'' @ ident" by (simp add: productById_def)
  show "productsByCategory category = ''products:category:'' @ category"
    by (simp add: productsByCategory_def)
  show "productsBySearch query = ''products:search:'' @ query"
    by (simp add: productsBySearch_def)
qed

theorem invalidateProductCaches_api_witness:
  "fst (MemoryCache_get populated_api ''products:all'' 1) = Val 1
   \<and> fst (MemoryCache_get populated_api ''products:featured'' 1) = Val 2
   \<and> fst (MemoryCache_get populated_api ''product:42'' 1) = Val 3
   \<and> fst (MemoryCache_get (apiCache (invalidateProductCaches (Some ''42'') populated_caches))
            ''products:all'' 1) = Null
   \<and> fst (MemoryCache_get (apiCache (invalidateProductCaches (Some ''42'') populated_caches))
            ''products:featured'' 1) = Null
   \<and> fst (MemoryCache_get (apiCache (invalidateProductCaches (Some ''42'') populated_caches))
            ''product:42'' 1) = Null
   \<and> cache (apiCache (invalidateProductCaches (Some ''42'') populated_caches))
        ''products:category:shoes'' = Some \<lparr>data = Val 4, timestamp = 0, ttl = 60000\<rparr>
   \<and> cache (apiCache (invalidateProductCaches (Some ''42'') populated_caches))
        ''products:search:red'' = Some \<lparr>data = Val 5, timestamp = 0, ttl = 60000\<rparr>"
  using invalidateProductCaches_api [of "Some ''42''" populated_caches 1 "''42''"
      "''products:search:red''" "''shoes''" "''red''"]
  by (simp add: populated_caches_def populated_api_def MemoryCache_set_def new_MemoryCache_def
      orDefault_def MemoryCache_get_def allProducts_def featuredProducts_def productById_def
      productsByCategory_def productsBySearch_def)

lemma withCache_hit:
  assumes "cache (the_cache s) (keyGen args) = Some entry"
      and "now - timestamp entry \<le> ttl entry"
      and "data entry \<noteq> Null"
  shows "withCache fn keyGen ttl_arg args now tset s = (Inr (data entry), s)"
  using assms by (simp add: withCache_def MemoryCache_get_def Let_def)

lemma withCache_miss_resolved:
  assumes "fst (MemoryCache_get (the_cache s) (keyGen args) tget) = Null"
      and "fn args (world s) = (Inr result, w)"
  shows "withCache fn keyGen ttl_arg args tget tset s =
           (Inr result,
            s\<lparr>the_cache := MemoryCache_set (snd (MemoryCache_get (the_cache s) (keyGen args) tget))
                              (keyGen args) result ttl_arg tset,
              world := w, invocations := invocations s + 1\<rparr>)"
  using assms by (simp add: withCache_def case_prod_beta Let_def)

lemma withCache_miss_rejected:
  assumes "fst (MemoryCache_get (the_cache s) (keyGen args) tget) = Null"
      and "fn args (world s) = (Inl e, w)"
  shows "withCache fn keyGen ttl_arg args tget tset s =
           (Inl e,
            s\<lparr>the_cache := snd (MemoryCache_get (the_cache s) (keyGen args) tget),
              world := w, invocations := invocations s + 1\<rparr>)"
  using assms by (simp add: withCache_def case_prod_beta Let_def)

lemma defaultTTL_get: "defaultTTL (snd (MemoryCache_get c k now)) = defaultTTL c"
  by (simp add: MemoryCache_get_def split: option.split)

lemma withCache_resolved_entry:
  assumes first: "withCache fn keyGen ttl_arg args tget tset s = (Inr v, s1)"
      and nonnull: "v \<noteq> Null"
  shows "(\<exists>entry. cache (the_cache s1) (keyGen args) = Some entry \<and> data entry = v)
         \<and> invocations s1 \<le> invocations s + 1"
proof (cases "fst (MemoryCache_get (the_cache s) (keyGen args) tget) = Null")
  case True
  obtain r w where fn: "fn args (world s) = (r, w)" by (cases "fn args (world s)")
  show ?thesis
  proof (cases r)
    case (Inl err)
    with True fn first show ?thesis by (simp add: withCache_miss_rejected)
  next
    case (Inr result)
    with True fn first show ?thesis
      by (auto simp: withCache_miss_resolved cache_MemoryCache_set)
  qed
next
  case False
  then obtain entry where e: "cache (the_cache s) (keyGen args) = Some entry"
      "tget - timestamp entry \<le> ttl entry" "data entry \<noteq> Null"
    by (auto simp: MemoryCache_get_def split: option.splits if_splits)
  with first show ?thesis by (auto simp: withCache_hit)
qed

text \<open>
  C5, amended. Two consecutive calls of a wrapper with the same arguments, the first
  resolving to a value \<open>v\<close> other than \<open>null\<close>: if the second call's lookup at \<open>t2\<close> finds the
  entry of the key unexpired, it returns \<open>v\<close> whatever the world \<open>w2\<close> has become, changes
  nothing, and the underlying function has run at most once over both calls. When the
  first call was a miss, the entry is unexpired exactly while \<open>t2 - t1'\<close> is at most the
  stored ttl, \<open>t1'\<close> being the clock reading of the first call's \<open>set\<close>.
\<close>

theorem withCache_memoizes:
  assumes first: "withCache fn keyGen ttl_arg args t1 t1' s = (Inr v, s1)"
      and nonnull: "v \<noteq> Null"
  shows "(live (the_cache s1) (keyGen args) t2 \<longrightarrow>
            withCache fn keyGen ttl_arg args t2 t2' (s1\<lparr>world := w2\<rparr>) = (Inr v, s1\<lparr>world := w2\<rparr>)
            \<and> invocations (snd (withCache fn keyGen ttl_arg args t2 t2' (s1\<lparr>world := w2\<rparr>)))
                  \<le> invocations s + 1)
       \<and> invocations s1 \<le> invocations s + 1
       \<and> (fst (MemoryCache_get (the_cache s) (keyGen args) t1) = Null \<longrightarrow>
            live (the_cache s1) (keyGen args) t2 =
              (t2 - t1' \<le> orDefault ttl_arg (defaultTTL (the_cache s))))"
proof (intro conjI impI)
  from withCache_resolved_entry [OF first nonnull]
  obtain entry where e: "cache (the_cache s1) (keyGen args) = Some entry" "data entry = v"
    and inv: "invocations s1 \<le> invocations s + 1" by blast
  show "invocations s1 \<le> invocations s + 1" by (rule inv)
  have hit: "withCache fn keyGen ttl_arg args t2 t2' (s1\<lparr>world := w2\<rparr>) = (Inr v, s1\<lparr>world := w2\<rparr>)"
    if "live (the_cache s1) (keyGen args) t2"
  proof -
    from that e have "t2 - timestamp entry \<le> ttl entry" by (simp add: live_def)
    with e nonnull show ?thesis
      using withCache_hit [of "s1\<lparr>world := w2\<rparr>" keyGen args entry t2 fn ttl_arg t2'] by simp
  qed
  show "withCache fn keyGen ttl_arg args t2 t2' (s1\<lparr>world := w2\<rparr>) = (Inr v, s1\<lparr>world := w2\<rparr>)"
    if "live (the_cache s1) (keyGen args) t2"
    using that by (rule hit)
  show "invocations (snd (withCache fn keyGen ttl_arg args t2 t2' (s1\<lparr>world := w2\<rparr>)))
          \<le> invocations s + 1"
    if "live (the_cache s1) (keyGen args) t2"
    using hit [OF that] inv by simp
  show "live (the_cache s1) (keyGen args) t2 =
          (t2 - t1' \<le> orDefault ttl_arg (defaultTTL (the_cache s)))"
    if miss: "fst (MemoryCache_get (the_cache s) (keyGen args) t1) = Null"
  proof (cases "fn args (world s)")
    case (Pair r w)
    show ?thesis
    proof (cases r)
      case (Inl err)
      with Pair miss first show ?thesis by (simp add: withCache_miss_rejected)
    next
      case (Inr result)
      with Pair miss first show ?thesis
        by (auto simp: withCache_miss_resolved live_def cache_MemoryCache_set defaultTTL_get)
    qed
  qed
qed

theorem withCache_memoizes_witness:
  "withCache read_world productById None ''42'' 0 1 empty_run =
     (Inr (Val 7),
      \<lparr>the_cache = MemoryCache_set (new_MemoryCache 60000) ''product:42'' (Val 7) None 1,
       world = 7, invocations = 1\<rparr>)
   \<and> withCache read_world productById None ''42'' 60001 60002
       \<lparr>the_cache = MemoryCache_set (new_MemoryCache 60000) ''product:42'' (Val 7) None 1,
        world = 8, invocations = 1\<rparr> =
     (Inr (Val 7),
      \<lparr>the_cache = MemoryCache_set (new_MemoryCache 60000) ''product:42'' (Val 7) None 1,
       world = 8, invocations = 1\<rparr>)"
proof -
  have first: "withCache read_world productById None ''42'' 0 1 empty_run =
     (Inr (Val 7),
      \<lparr>the_cache = MemoryCache_set (new_MemoryCache 60000) ''product:42'' (Val 7) None 1,
       world = 7, invocations = 1\<rparr>)"
    by (simp add: withCache_def empty_run_def read_world_def MemoryCache_get_def
        new_MemoryCache_def productById_def Let_def)
  show ?thesis
    using first withCache_memoizes [OF first, of 60001 60002 8]
    by (simp add: live_def MemoryCache_set_def new_MemoryCache_def orDefault_def productById_def)
qed

text \<open>
  C5 as stated fails for a function that resolves to \<open>null\<close>: the wrapper takes the
  cached \<open>null\<close> for a miss, so two calls one millisecond apart run the function twice.
\<close>

theorem withCache_null_counterexample:
  "fst (withCache null_result productById None ''42'' 0 0 empty_run) = Inr Null
   \<and> (1::int) - 0 \<le> defaultTTL (the_cache empty_run)
   \<and> invocations empty_run = 0
   \<and> invocations (snd (withCache null_result productById None ''42'' 1 1
                    (snd (withCache null_result productById None ''42'' 0 0 empty_run)))) = 2"
  by (simp add: withCache_def empty_run_def null_result_def MemoryCache_get_def
      MemoryCache_set_def new_MemoryCache_def orDefault_def Let_def)

text \<open>
  C6, amended. When the lookup misses and the underlying function rejects with \<open>e\<close>, the
  wrapped call rejects with \<open>e\<close> and stores nothing: the cache is as the lookup left it,
  unchanged when the key's entry was absent or unexpired, and without the key's entry
  when that entry had expired; a later get of the key returns \<open>null\<close>.
\<close>

theorem withCache_error_not_cached:
  assumes miss: "fst (MemoryCache_get (the_cache s) (keyGen args) t1) = Null"
      and rejects: "fn args (world s) = (Inl e, w)"
  shows "withCache fn keyGen ttl_arg args t1 t1' s =
           (Inl e, s\<lparr>the_cache := snd (MemoryCache_get (the_cache s) (keyGen args) t1),
                     world := w, invocations := invocations s + 1\<rparr>)
       \<and> cache (the_cache (snd (withCache fn keyGen ttl_arg args t1 t1' s))) =
           (if live (the_cache s) (keyGen args) t1 then cache (the_cache s)
            else (cache (the_cache s))(keyGen args := None))
       \<and> fst (MemoryCache_get (the_cache (snd (withCache fn keyGen ttl_arg args t1 t1' s)))
               (keyGen args) t2) = Null"
proof -
  have call: "withCache fn keyGen ttl_arg args t1 t1' s =
           (Inl e, s\<lparr>the_cache := snd (MemoryCache_get (the_cache s) (keyGen args) t1),
                     world := w, invocations := invocations s + 1\<rparr>)"
    using miss rejects by (rule withCache_miss_rejected)
  have after: "cache (snd (MemoryCache_get (the_cache s) (keyGen args) t1)) =
           (if live (the_cache s) (keyGen args) t1 then cache (the_cache s)
            else (cache (the_cache s))(keyGen args := None))"
    by (auto simp: MemoryCache_get_def live_def split: option.splits)
  have "fst (MemoryCache_get (snd (MemoryCache_get (the_cache s) (keyGen args) t1)) (keyGen args) t2)
          = Null"
    using miss by (auto simp: MemoryCache_get_def split: option.splits if_splits)
  with call after show ?thesis by simp
qed

theorem withCache_error_not_cached_witness:
  "withCache failing id None ''k'' 11 12 stale_run =
     (Inl ''boom'', stale_run\<lparr>the_cache := new_MemoryCache 60000, invocations := 1\<rparr>)"
  using withCache_error_not_cached [of stale_run id "''k''" 11 failing "''boom''" 7 None 12 13]
  by (simp add: stale_run_def one_entry_cache_def failing_def MemoryCache_get_def
      MemoryCache_set_def new_MemoryCache_def orDefault_def)

text \<open>
  C6 as stated fails when the miss comes from an expired entry: the lookup has removed
  it, so the entry of the key is not what it was before the call.
\<close>

theorem withCache_error_evicts_counterexample:
  "fst (withCache failing id None ''k'' 11 11 stale_run) = Inl ''boom''
   \<and> cache (the_cache stale_run) ''k'' = Some \<lparr>data = Val 1, timestamp = 0, ttl = 10\<rparr>
   \<and> cache (the_cache (snd (withCache failing id None ''k'' 11 11 stale_run))) ''k'' = None"
  by (simp add: withCache_def stale_run_def one_entry_cache_def failing_def MemoryCache_get_def
      MemoryCache_set_def new_MemoryCache_def orDefault_def Let_def)

end
